theory Spec2Isabelle
  imports Complex_Main
begin

section \<open>Python values\<close>

text \<open>
  A Python \<open>str\<close> is modelled as a \<^typ>\<open>string\<close>: each \<^typ>\<open>char\<close> stands for the code
  point of the same number, so the development covers the strings whose code points are
  below 256. The character classes below are the ones Python's \<open>re\<close> module and
  \<open>str.strip\<close> use on that range.
\<close>

definition is_space :: "char \<Rightarrow> bool" where
  \<comment> \<open>\<open>\s\<close> of a \<open>str\<close> pattern, and the characters \<open>str.strip()\<close> removes.\<close>
  "is_space c =
     (let n = (of_char c :: nat)
      in (9 \<le> n \<and> n \<le> 13) \<or> (28 \<le> n \<and> n \<le> 32) \<or> n = 133 \<or> n = 160)"

definition is_digit :: "char \<Rightarrow> bool" where
  \<comment> \<open>\<open>\d\<close>: below code point 256 the decimal digits are \<open>0\<close> to \<open>9\<close>.\<close>
  "is_digit c = (let n = (of_char c :: nat) in 48 \<le> n \<and> n \<le> 57)"

definition is_word :: "char \<Rightarrow> bool" where
  \<comment> \<open>\<open>\w\<close>: alphanumeric characters and the underscore.\<close>
  "is_word c =
     (let n = (of_char c :: nat)
      in (48 \<le> n \<and> n \<le> 57) \<or> (65 \<le> n \<and> n \<le> 90) \<or> n = 95 \<or> (97 \<le> n \<and> n \<le> 122)
         \<or> n = 170 \<or> n = 178 \<or> n = 179 \<or> n = 181 \<or> n = 185 \<or> n = 186
         \<or> (188 \<le> n \<and> n \<le> 190) \<or> (192 \<le> n \<and> n \<le> 214) \<or> (216 \<le> n \<and> n \<le> 246)
         \<or> 248 \<le> n)"

definition strip :: "string \<Rightarrow> string" where
  \<comment> \<open>\<open>s.strip()\<close>\<close>
  "strip s = rev (dropWhile is_space (rev (dropWhile is_space s)))"

section \<open>Text normalizer\<close>

text \<open>\<open>re.sub(r"\s+", " ", s)\<close>: every maximal run of whitespace becomes one space.\<close>

function sub_space_runs :: "string \<Rightarrow> string" where
  "sub_space_runs [] = []"
| "sub_space_runs (c # cs) =
     (if is_space c then CHR '' '' # sub_space_runs (dropWhile is_space cs)
      else c # sub_space_runs cs)"
  by pat_completeness auto
termination
  by (relation "measure length") (auto simp: length_dropWhile_le less_Suc_eq_le)

text \<open>
  \<open>re.sub(r"[,\s]+$", "", s)\<close>: the match is the longest run of commas and whitespace
  that reaches the end of the text.
\<close>

definition sub_trailing :: "string \<Rightarrow> string" where
  "sub_trailing s = rev (dropWhile (\<lambda>c. c = CHR '','' \<or> is_space c) (rev s))"

text \<open>
  \<open>_clean_place(s)\<close>. The argument is optional because the source reads \<open>(s or "")\<close>:
  \<open>None\<close> and the empty text are both taken as the empty text.
\<close>

definition clean_place :: "string option \<Rightarrow> string" where
  "clean_place s =
     (let s0 = (case s of None \<Rightarrow> [] | Some t \<Rightarrow> t);
          s1 = strip (sub_space_runs s0)
      in sub_trailing s1)"

section \<open>Coordinate parser\<close>

text \<open>
  A Python \<open>float\<close> obtained from a decimal numeral is modelled by the exact value of the
  numeral, a \<^typ>\<open>rat\<close>; the rounding to a binary64 is not modelled, so an equation between
  two such values in the model is an equation between the floats the same numerals denote.
\<close>

type_synonym pyfloat = rat

definition digits_value :: "string \<Rightarrow> nat" where
  "digits_value ds = foldl (\<lambda>a c. 10 * a + (of_char c - 48)) 0 ds"

definition float_of :: "string \<Rightarrow> pyfloat" where
  \<comment> \<open>\<open>float(t)\<close> for a text \<open>t\<close> of the form \<open>[+-]?\d+(\.\d+)?\<close>\<close>
  "float_of t =
     (let (neg, u) = (case t of
                        [] \<Rightarrow> (False, t)
                      | c # cs \<Rightarrow> if c = CHR ''-'' then (True, cs)
                                 else if c = CHR ''+'' then (False, cs) else (False, t));
          ip = takeWhile is_digit u;
          fp = drop 1 (dropWhile is_digit u);
          v = of_nat (digits_value (ip @ fp)) / 10 ^ length fp
      in if neg then - v else v)"

text \<open>
  \<open>[+-]?\d+(?:\.\d+)?\<close> matched at the start of a text: the matched group and the rest.
  The sign, the digits and the decimal part are taken greedily; giving any of them back
  leaves a character that nothing after the group in the pattern can match.
\<close>

definition match_number :: "string \<Rightarrow> (string \<times> string) option" where
  "match_number s =
     (let (sign, s1) = (case s of
                          [] \<Rightarrow> ([], s)
                        | c # cs \<Rightarrow> if c = CHR ''+'' \<or> c = CHR ''-'' then ([c], cs) else ([], s));
          ds = takeWhile is_digit s1;
          s2 = dropWhile is_digit s1
      in if ds = [] then None
         else (case s2 of
                 [] \<Rightarrow> Some (sign @ ds, s2)
               | c # cs \<Rightarrow>
                   if c = CHR ''.'' \<and> takeWhile is_digit cs \<noteq> []
                   then Some (sign @ ds @ [c] @ takeWhile is_digit cs, dropWhile is_digit cs)
                   else Some (sign @ ds, s2)))"

text \<open>
  \<open>\s*[, ]\s*\<close> matched at the start of a text, before a number: after the whitespace run
  either a comma follows, or one of the run's characters is the space that \<open>[, ]\<close> takes.
\<close>

definition match_separator :: "string \<Rightarrow> string option" where
  "match_separator s =
     (let w = takeWhile is_space s; r = dropWhile is_space s
      in (case r of
            [] \<Rightarrow> if CHR '' '' \<in> set w then Some r else None
          | c # cs \<Rightarrow>
              if c = CHR '','' then Some (dropWhile is_space cs)
              else if CHR '' '' \<in> set w then Some r else None))"

text \<open>\<open>_parse_latlon(s)\<close>: \<open>None\<close> is the source's \<open>None\<close>, the value for no match.\<close>

definition parse_latlon :: "string \<Rightarrow> (pyfloat \<times> pyfloat) option" where
  "parse_latlon s =
     (case match_number (dropWhile is_space s) of
        None \<Rightarrow> None
      | Some (a, r1) \<Rightarrow>
          (case match_separator r1 of
             None \<Rightarrow> None
           | Some r2 \<Rightarrow>
               (case match_number r2 of
                  None \<Rightarrow> None
                | Some (b, r3) \<Rightarrow>
                    if dropWhile is_space r3 = [] then Some (float_of a, float_of b)
                    else None)))"

section \<open>JSON values and the Python operations applied to them\<close>

text \<open>
  The bodies of the two HTTP services are parsed JSON: \<open>None\<close>, booleans, numbers, texts,
  lists and dictionaries. A dictionary is the list of its items; a key is looked up with
  \<^const>\<open>map_of\<close>. Numbers, \<open>int\<close> and \<open>float\<close> alike, are rationals.
\<close>

datatype json =
    JNull
  | JBool bool
  | JNum rat
  | JStr string
  | JArr "json list"
  | JObj "(string \<times> json) list"

datatype error =
    ValidationError
  | ValueError string
  | TransportError
  | HTTPStatusError
  | JSONDecodeError
  | KeyError
  | IndexError
  | TypeError
  | AttributeError

definition bind :: "error + 'a \<Rightarrow> ('a \<Rightarrow> error + 'b) \<Rightarrow> error + 'b" where
  \<comment> \<open>sequencing: an exception raised by the first step skips the rest\<close>
  "bind r f = (case r of Inl e \<Rightarrow> Inl e | Inr v \<Rightarrow> f v)"

fun item_str :: "json \<Rightarrow> string \<Rightarrow> error + json" where
  \<comment> \<open>\<open>d[k]\<close> for a text \<open>k\<close>\<close>
  "item_str (JObj kvs) k = (case map_of kvs k of None \<Rightarrow> Inl KeyError | Some v \<Rightarrow> Inr v)"
| "item_str _ k = Inl TypeError"

fun item_int :: "json \<Rightarrow> nat \<Rightarrow> error + json" where
  \<comment> \<open>\<open>xs[i]\<close> for an index \<open>i \<ge> 0\<close>\<close>
  "item_int (JArr xs) i = (if i < length xs then Inr (xs ! i) else Inl IndexError)"
| "item_int (JStr s) i = (if i < length s then Inr (JStr [s ! i]) else Inl IndexError)"
| "item_int (JObj kvs) i = Inl KeyError"
| "item_int _ i = Inl TypeError"

fun py_len :: "json \<Rightarrow> error + nat" where
  \<comment> \<open>\<open>len(x)\<close>\<close>
  "py_len (JArr xs) = Inr (length xs)"
| "py_len (JStr s) = Inr (length s)"
| "py_len (JObj kvs) = Inr (length (remdups (map fst kvs)))"
| "py_len _ = Inl TypeError"

fun py_get :: "json \<Rightarrow> string \<Rightarrow> json \<Rightarrow> error + json" where
  \<comment> \<open>\<open>d.get(k, default)\<close>; \<open>d.get(k)\<close> has the default \<open>None\<close>\<close>
  "py_get (JObj kvs) k dflt = Inr (case map_of kvs k of None \<Rightarrow> dflt | Some v \<Rightarrow> v)"
| "py_get _ k dflt = Inl AttributeError"

fun truthy :: "json \<Rightarrow> bool" where
  "truthy JNull = False"
| "truthy (JBool b) = b"
| "truthy (JNum x) = (x \<noteq> 0)"
| "truthy (JStr s) = (s \<noteq> [])"
| "truthy (JArr xs) = (xs \<noteq> [])"
| "truthy (JObj kvs) = (kvs \<noteq> [])"

subsection \<open>Formatting\<close>

definition is_printable :: "char \<Rightarrow> bool" where
  \<comment> \<open>\<open>str.isprintable\<close> on one character\<close>
  "is_printable c =
     (let n = (of_char c :: nat) in (32 \<le> n \<and> n \<le> 126) \<or> (161 \<le> n \<and> n \<noteq> 173))"

definition hex_digit :: "nat \<Rightarrow> char" where
  "hex_digit n = ''0123456789abcdef'' ! n"

definition repr_char :: "char \<Rightarrow> char \<Rightarrow> string" where
  "repr_char quote c =
     (if c = quote \<or> c = CHR 0x5C then [CHR 0x5C, c]
      else if c = CHR 0x09 then [CHR 0x5C, CHR ''t'']
      else if c = CHR 0x0A then [CHR 0x5C, CHR ''n'']
      else if c = CHR 0x0D then [CHR 0x5C, CHR ''r'']
      else if is_printable c then [c]
      else [CHR 0x5C, CHR ''x'', hex_digit (of_char c div 16), hex_digit (of_char c mod 16)])"

definition py_repr :: "string \<Rightarrow> string" where
  \<comment> \<open>\<open>repr(s)\<close>, the \<open>!r\<close> of an f-string: double quotes only when the text has a single
      quote and no double quote\<close>
  "py_repr s =
     (let quote = (if CHR 0x27 \<in> set s \<and> CHR 0x22 \<notin> set s then CHR 0x22 else CHR 0x27)
      in [quote] @ concat (map (repr_char quote) s) @ [quote])"

fun join :: "string \<Rightarrow> string list \<Rightarrow> string" where
  \<comment> \<open>\<open>sep.join(xs)\<close>\<close>
  "join sep [] = []"
| "join sep [x] = x"
| "join sep (x # y # ys) = x @ sep @ join sep (y # ys)"

section \<open>The network\<close>

text \<open>
  Both services are reached with \<open>client.get\<close>, \<open>r.raise_for_status()\<close> and \<open>r.json()\<close>.
  A request is its URL, query parameters and headers. The network is a function from the
  requests issued so far and the next request to the outcome of these three statements:
  one of them raises, or the parsed body is returned. The state threaded through the
  program is the list of requests issued, so a call that leaves it unchanged has made no
  network call.
\<close>

datatype request = Get (url: string) (params: "(string \<times> json) list") (headers: "(string \<times> string) list")

datatype reply = Get_Raises | Status_Raises | Json_Raises | Returns json

type_synonym network = "request list \<Rightarrow> request \<Rightarrow> reply"

definition fetch :: "network \<Rightarrow> request \<Rightarrow> request list \<Rightarrow> (error + json) \<times> request list" where
  "fetch net req sent =
     ((case net sent req of
         Get_Raises \<Rightarrow> Inl TransportError
       | Status_Raises \<Rightarrow> Inl HTTPStatusError
       | Json_Raises \<Rightarrow> Inl JSONDecodeError
       | Returns data \<Rightarrow> Inr data),
      sent @ [req])"

section \<open>Geocode resolver\<close>

text \<open>The list \<open>candidates\<close> that \<open>_geocode\<close> builds from the cleaned text.\<close>

definition candidates :: "string \<Rightarrow> string list" where
  "candidates cleaned =
     [cleaned]
     @ (if CHR '','' \<in> set cleaned then [strip (takeWhile (\<lambda>c. c \<noteq> CHR '','') cleaned)] else [])
     @ [strip (map (\<lambda>c. if is_word c \<or> is_space c \<or> c = CHR ''-'' \<or> c = CHR 0x27 then c
                          else CHR '' '') cleaned)]"

text \<open>
  The comprehension \<open>[c for c in candidates if c and c not in tried]\<close>. The loop
  evaluates it once, before its first iteration, when \<open>tried\<close> is still the empty list.
\<close>

definition queries :: "string list \<Rightarrow> string list \<Rightarrow> string list" where
  "queries cands tried = filter (\<lambda>c. c \<noteq> [] \<and> c \<notin> set tried) cands"

definition geocoding_request :: "string \<Rightarrow> string \<Rightarrow> request" where
  "geocoding_request q lang =
     Get ''https://geocoding-api.open-meteo.com/v1/search''
       [(''name'', JStr q), (''count'', JNum 1), (''language'', JStr lang),
        (''format'', JStr ''json'')]
       [(''Accept-Language'', lang)]"

definition not_found_message :: "string \<Rightarrow> string list \<Rightarrow> string" where
  "not_found_message place tried =
     ''No location found for '' @ py_repr place @ '' (tried: '' @ join '', '' tried @ '').''"

text \<open>
  The loop of \<open>_geocode\<close> over the remaining queries, with the \<open>raise\<close> that follows it
  for the case that the loop runs to its end.
\<close>

fun geocode_loop ::
  "network \<Rightarrow> string \<Rightarrow> string \<Rightarrow> string list \<Rightarrow> string list \<Rightarrow> request list
   \<Rightarrow> (error + json) \<times> request list" where
  "geocode_loop net place lang [] tried sent =
     (Inl (ValueError (not_found_message place tried)), sent)"
| "geocode_loop net place lang (q # qs) tried sent =
     (case fetch net (geocoding_request q lang) sent of
        (Inl e, sent') \<Rightarrow> (Inl e, sent')
      | (Inr data, sent') \<Rightarrow>
          (case py_get data ''results'' JNull of
             Inl e \<Rightarrow> (Inl e, sent')
           | Inr results \<Rightarrow>
               if truthy results
               then (bind (item_str data ''results'') (\<lambda>rs. item_int rs 0), sent')
               else geocode_loop net place lang qs (tried @ [q]) sent'))"

definition geocode ::
  "network \<Rightarrow> string \<Rightarrow> string \<Rightarrow> request list \<Rightarrow> (error + json) \<times> request list" where
  "geocode net place lang sent =
     (let cleaned = clean_place (Some place)
      in (case parse_latlon cleaned of
            Some (lat, lon) \<Rightarrow>
              (Inr (JObj [(''name'', JStr place), (''country'', JNull), (''admin1'', JNull),
                          (''latitude'', JNum lat), (''longitude'', JNum lon)]),
               sent)
          | None \<Rightarrow> geocode_loop net place lang (queries (candidates cleaned) []) [] sent))"

section \<open>Forecast tool\<close>

datatype units = C | F

definition temp_unit :: "units \<Rightarrow> string" where
  \<comment> \<open>\<open>"celsius" if units.upper() == "C" else "fahrenheit"\<close>\<close>
  "temp_unit u = (case u of C \<Rightarrow> ''celsius'' | F \<Rightarrow> ''fahrenheit'')"

definition forecast_request :: "json \<Rightarrow> json \<Rightarrow> units \<Rightarrow> int \<Rightarrow> request" where
  "forecast_request lat lon u days =
     Get ''https://api.open-meteo.com/v1/forecast''
       [(''latitude'', lat), (''longitude'', lon),
        (''daily'', JStr ''weathercode,temperature_2m_max,temperature_2m_min,precipitation_sum''),
        (''timezone'', JStr ''auto''),
        (''temperature_unit'', JStr (temp_unit u)),
        (''forecast_days'', JNum (of_int days))]
       []"

definition daily_column :: "json \<Rightarrow> string \<Rightarrow> nat \<Rightarrow> error + json" where
  \<comment> \<open>\<open>data["daily"][key][i]\<close>\<close>
  "daily_column data key i =
     bind (item_str data ''daily'') (\<lambda>d. bind (item_str d key) (\<lambda>xs. item_int xs i))"

definition daily_entry :: "json \<Rightarrow> json \<Rightarrow> nat \<Rightarrow> error + json" where
  \<comment> \<open>the dictionary appended in iteration \<open>i\<close>; its values are evaluated in this order\<close>
  "daily_entry data time_col i =
     bind (item_int time_col i) (\<lambda>date.
     bind (daily_column data ''temperature_2m_max'' i) (\<lambda>t_max.
     bind (daily_column data ''temperature_2m_min'' i) (\<lambda>t_min.
     bind (daily_column data ''precipitation_sum'' i) (\<lambda>precipitation_sum.
     bind (daily_column data ''weathercode'' i) (\<lambda>weathercode.
       Inr (JObj [(''date'', date), (''t_max'', t_max), (''t_min'', t_min),
                  (''precipitation_sum'', precipitation_sum),
                  (''weathercode'', weathercode)]))))))"

fun daily_loop :: "json \<Rightarrow> json \<Rightarrow> nat list \<Rightarrow> json list \<Rightarrow> error + json list" where
  "daily_loop data time_col [] daily = Inr daily"
| "daily_loop data time_col (i # is) daily =
     bind (daily_entry data time_col i) (\<lambda>d. daily_loop data time_col is (daily @ [d]))"

definition reshape_daily :: "json \<Rightarrow> error + json list" where
  \<comment> \<open>from \<open>times = data["daily"]["time"]\<close> to the end of the loop; \<open>time_col\<close> is \<open>times\<close>\<close>
  "reshape_daily data =
     bind (bind (item_str data ''daily'') (\<lambda>d. item_str d ''time'')) (\<lambda>time_col.
     bind (py_len time_col) (\<lambda>n.
       daily_loop data time_col [0..<n] []))"

definition forecast_result :: "string \<Rightarrow> json \<Rightarrow> json \<Rightarrow> json \<Rightarrow> json \<Rightarrow> json list \<Rightarrow> error + json" where
  \<comment> \<open>the dictionary of the \<open>return\<close> statement\<close>
  "forecast_result place loc lat lon data daily =
     bind (py_get loc ''name'' JNull) (\<lambda>name.
     bind (py_get loc ''country'' JNull) (\<lambda>country.
     bind (py_get loc ''admin1'' JNull) (\<lambda>admin1.
     bind (py_get data ''timezone'' JNull) (\<lambda>timezone.
     bind (py_get data ''daily_units'' (JObj [])) (\<lambda>daily_units.
       Inr (JObj [(''query'', JStr place),
                  (''location'', JObj [(''name'', name), (''country'', country),
                                       (''admin1'', admin1), (''latitude'', lat),
                                       (''longitude'', lon), (''timezone'', timezone)]),
                  (''units'', daily_units),
                  (''daily'', JArr daily)]))))))"

text \<open>The body of \<open>get_weather_forecast\<close>; \<open>place'\<close> is \<open>place\<close> after its reassignment.\<close>

definition forecast_body ::
  "network \<Rightarrow> string \<Rightarrow> int \<Rightarrow> units \<Rightarrow> string \<Rightarrow> request list
   \<Rightarrow> (error + json) \<times> request list" where
  "forecast_body net place days u lang sent =
     (let place' = clean_place (Some place)
      in (case geocode net place' lang sent of
            (Inl e, sent1) \<Rightarrow> (Inl e, sent1)
          | (Inr loc, sent1) \<Rightarrow>
              (case bind (item_str loc ''latitude'') (\<lambda>lat.
                    bind (item_str loc ''longitude'') (\<lambda>lon. Inr (lat, lon))) of
                 Inl e \<Rightarrow> (Inl e, sent1)
               | Inr (lat, lon) \<Rightarrow>
                   (case fetch net (forecast_request lat lon u days) sent1 of
                      (Inl e, sent2) \<Rightarrow> (Inl e, sent2)
                    | (Inr data, sent2) \<Rightarrow>
                        (bind (reshape_daily data) (\<lambda>daily.
                           forecast_result place' loc lat lon data daily),
                         sent2)))))"

text \<open>
  The tool \<open>get_weather_forecast\<close> as it is registered: the constraints that the signature
  declares (\<open>ge=1\<close>, \<open>le=16\<close> on \<open>days\<close>; \<open>min_length=2\<close>, \<open>max_length=5\<close> on \<open>lang\<close>; the two
  literals of \<open>units\<close>, here the type \<^typ>\<open>units\<close>) are checked on the arguments of a call
  before the body runs.
\<close>

definition valid_arguments :: "int \<Rightarrow> string \<Rightarrow> bool" where
  "valid_arguments days lang = (1 \<le> days \<and> days \<le> 16 \<and> 2 \<le> length lang \<and> length lang \<le> 5)"

definition get_weather_forecast ::
  "network \<Rightarrow> string \<Rightarrow> int \<Rightarrow> units \<Rightarrow> string \<Rightarrow> request list
   \<Rightarrow> (error + json) \<times> request list" where
  "get_weather_forecast net place days u lang sent =
     (if valid_arguments days lang then forecast_body net place days u lang sent
      else (Inl ValidationError, sent))"

section \<open>Notions used in the statements\<close>

text \<open>
  A text in which every whitespace character is a single space that is followed by a
  character that is not whitespace, or by nothing.
\<close>

fun single_spaced :: "string \<Rightarrow> bool" where
  "single_spaced [] = True"
| "single_spaced (c # cs) =
     ((is_space c \<longrightarrow> c = CHR '' '' \<and> (cs = [] \<or> \<not> is_space (hd cs))) \<and> single_spaced cs)"

text \<open>
  The words of a text, as \<open>s.split()\<close> gives them: its maximal runs of characters that are
  not whitespace.
\<close>

function split_ws :: "string \<Rightarrow> string list" where
  "split_ws [] = []"
| "split_ws (c # cs) =
     (if is_space c then split_ws cs
      else (c # takeWhile (\<lambda>x. \<not> is_space x) cs)
           # split_ws (dropWhile (\<lambda>x. \<not> is_space x) cs))"
  by pat_completeness auto
termination
  by (relation "measure length") (auto simp: length_dropWhile_le less_Suc_eq_le)

text \<open>
  The texts of the pattern of \<open>_parse_latlon\<close>, read off the regular expression. A numeral
  \<open>[+-]?\d+(?:\.\d+)?\<close> is an optional sign, digits and an optional decimal part; a
  coordinate text is a numeral \<open>a\<close>, a comma or a space with optional whitespace on both
  sides, and a numeral \<open>b\<close>, with optional whitespace around the whole.
\<close>

definition numeral_text :: "string \<Rightarrow> bool" where
  "numeral_text t \<longleftrightarrow>
     (\<exists>sg ds fr. t = sg @ ds @ fr \<and> (sg = [] \<or> sg = ''+'' \<or> sg = ''-'')
        \<and> ds \<noteq> [] \<and> list_all is_digit ds
        \<and> (fr = [] \<or> (\<exists>fs. fr = CHR ''.'' # fs \<and> fs \<noteq> [] \<and> list_all is_digit fs)))"

definition latlon_text :: "string \<Rightarrow> string \<Rightarrow> string \<Rightarrow> bool" where
  "latlon_text s a b \<longleftrightarrow>
     (\<exists>w0 w1 sep w2 w3. s = w0 @ a @ w1 @ sep # w2 @ b @ w3
        \<and> list_all is_space w0 \<and> list_all is_space w1 \<and> list_all is_space w2
        \<and> list_all is_space w3 \<and> (sep = CHR '','' \<or> sep = CHR '' '')
        \<and> numeral_text a \<and> numeral_text b)"

text \<open>
  The candidate list as the specification describes it: the candidates in their order,
  without the empty texts, and with a text that occurs again dropped at its later
  occurrences. This is what the test \<open>c and c not in tried\<close> would select if it were made
  when each candidate's turn comes, with \<open>tried\<close> holding the queries made so far.
\<close>

fun keep_first :: "string list \<Rightarrow> string list \<Rightarrow> string list" where
  "keep_first tried [] = []"
| "keep_first tried (c # cs) =
     (if c \<noteq> [] \<and> c \<notin> set tried then c # keep_first (tried @ [c]) cs
      else keep_first tried cs)"

definition spec_candidates :: "string \<Rightarrow> string list" where
  "spec_candidates cleaned = keep_first [] (candidates cleaned)"

text \<open>The geocoding lookups for a list of queries, in the order of the list.\<close>

definition lookups :: "string \<Rightarrow> string list \<Rightarrow> request list" where
  "lookups lang qs = map (\<lambda>q. geocoding_request q lang) qs"

text \<open>
  The reply to the lookup of the query at position \<open>i\<close> of \<open>qs\<close>, when it is issued after
  the lookups of the queries before it.
\<close>

definition reply_at :: "network \<Rightarrow> request list \<Rightarrow> string \<Rightarrow> string list \<Rightarrow> nat \<Rightarrow> reply" where
  "reply_at net sent lang qs i =
     net (sent @ lookups lang (take i qs)) (geocoding_request (qs ! i) lang)"

text \<open>A lookup yields zero results: the body has no \<open>results\<close>, or a value that is falsy.\<close>

fun no_results :: "reply \<Rightarrow> bool" where
  "no_results (Returns data) =
     (case py_get data ''results'' JNull of Inl e \<Rightarrow> False | Inr results \<Rightarrow> \<not> truthy results)"
| "no_results _ = False"

text \<open>The entry of day \<open>i\<close>, from index \<open>i\<close> of the five arrays.\<close>

definition daily_dict ::
  "json list \<Rightarrow> json list \<Rightarrow> json list \<Rightarrow> json list \<Rightarrow> json list \<Rightarrow> nat \<Rightarrow> json" where
  "daily_dict ts mx mn pr wc i =
     JObj [(''date'', ts ! i), (''t_max'', mx ! i), (''t_min'', mn ! i),
           (''precipitation_sum'', pr ! i), (''weathercode'', wc ! i)]"

text \<open>The \<open>query\<close> field of the result of a call, when the call returns one.\<close>

definition query_of :: "(error + json) \<times> request list \<Rightarrow> error + json" where
  "query_of r = bind (fst r) (\<lambda>res. item_str res ''query'')"

subsection \<open>Networks and bodies for the examples\<close>

definition always :: "reply \<Rightarrow> network" where
  \<comment> \<open>every request gets the same reply\<close>
  "always r sent req = r"

definition scripted :: "reply list \<Rightarrow> network" where
  \<comment> \<open>the \<open>n\<close>-th request gets the \<open>n\<close>-th reply of the script; later ones fail\<close>
  "scripted rs sent req = (if length sent < length rs then rs ! length sent else Get_Raises)"

definition forecast_data :: "json list \<Rightarrow> json list \<Rightarrow> json list \<Rightarrow> json list \<Rightarrow> json list \<Rightarrow> json" where
  "forecast_data ts mx mn pr wc =
     JObj [(''timezone'', JStr ''Europe/Copenhagen''),
           (''daily'', JObj [(''time'', JArr ts), (''temperature_2m_max'', JArr mx),
                             (''temperature_2m_min'', JArr mn), (''precipitation_sum'', JArr pr),
                             (''weathercode'', JArr wc)])]"

definition paris :: json where
  "paris = JObj [(''name'', JStr ''Paris''), (''country'', JStr ''France''),
                 (''latitude'', JNum 48.85341), (''longitude'', JNum 2.3488)]"

section \<open>Evaluation rules\<close>

lemmas clean_place_eval = clean_place_def strip_def sub_trailing_def is_space_def Let_def

lemmas parse_latlon_eval =
  parse_latlon_def match_number_def match_separator_def float_of_def digits_value_def
  is_space_def is_digit_def Let_def

lemmas candidates_eval = queries_def candidates_def strip_def is_space_def is_word_def

lemmas message_eval =
  not_found_message_def py_repr_def repr_char_def is_printable_def Let_def

lemma bind_Inr [simp]: "bind (Inr v) f = f v"
  by (simp add: bind_def)

lemma bind_Inl [simp]: "bind (Inl e) f = Inl e"
  by (simp add: bind_def)

lemma bind_Inr_iff: "bind r f = Inr y \<longleftrightarrow> (\<exists>v. r = Inr v \<and> f v = Inr y)"
  by (cases r) simp_all

section \<open>Properties of the text normalizer\<close>

lemma is_space_blank [simp]: "is_space (CHR '' '')"
  by (simp add: is_space_def)

lemma not_space_comma [simp]: "\<not> is_space (CHR '','')"
  by (simp add: is_space_def)

lemma sub_space_runs_Nil_iff [simp]: "sub_space_runs s = [] \<longleftrightarrow> s = []"
  by (cases s) simp_all

lemma is_space_hd_sub_space_runs:
  "s \<noteq> [] \<Longrightarrow> is_space (hd (sub_space_runs s)) \<longleftrightarrow> is_space (hd s)"
  by (cases s) simp_all

lemma single_spaced_sub_space_runs: "single_spaced (sub_space_runs s)"
proof (induction s rule: sub_space_runs.induct)
  case 1
  show ?case by simp
next
  case (2 c cs)
  show ?case
  proof (cases "is_space c")
    case True
    have "dropWhile is_space cs \<noteq> [] \<Longrightarrow>
          \<not> is_space (hd (sub_space_runs (dropWhile is_space cs)))"
      by (simp add: is_space_hd_sub_space_runs hd_dropWhile)
    with True 2 show ?thesis by auto
  next
    case False
    with 2 show ?thesis by simp
  qed
qed

lemma sub_space_runs_fixed: "single_spaced s \<Longrightarrow> sub_space_runs s = s"
proof (induction s)
  case Nil
  show ?case by simp
next
  case (Cons c cs)
  then have "is_space c \<Longrightarrow> dropWhile is_space cs = cs"
    by (auto simp: dropWhile_eq_self_iff)
  with Cons show ?case by auto
qed

lemma single_spaced_append: "single_spaced (xs @ ys) \<Longrightarrow> single_spaced xs \<and> single_spaced ys"
  by (induction xs) (auto simp: hd_append split: if_splits)

text \<open>Dropping from the right end, as \<^const>\<open>strip\<close> and \<^const>\<open>sub_trailing\<close> do.\<close>

lemma rdrop_takeWhile: "rev (dropWhile P (rev s)) @ rev (takeWhile P (rev s)) = s"
  by (metis rev_append rev_rev_ident takeWhile_dropWhile_id)

lemma single_spaced_dropWhile: "single_spaced s \<Longrightarrow> single_spaced (dropWhile P s)"
  using single_spaced_append [of "takeWhile P s" "dropWhile P s"] by simp

lemma single_spaced_rdrop: "single_spaced s \<Longrightarrow> single_spaced (rev (dropWhile P (rev s)))"
  using single_spaced_append [of "rev (dropWhile P (rev s))" "rev (takeWhile P (rev s))"]
  by (simp add: rdrop_takeWhile)

lemma last_rdrop: "rev (dropWhile P (rev s)) \<noteq> [] \<Longrightarrow> \<not> P (last (rev (dropWhile P (rev s))))"
  by (simp add: last_rev hd_dropWhile)

lemma hd_rdrop: "rev (dropWhile P (rev s)) \<noteq> [] \<Longrightarrow> hd (rev (dropWhile P (rev s))) = hd s"
  using rdrop_takeWhile [of P s] by (metis hd_append2)

lemma rdrop_fixed:
  assumes "s = [] \<or> \<not> P (last s)"
  shows "rev (dropWhile P (rev s)) = s"
proof -
  have "dropWhile P (rev s) = rev s"
    using assms by (auto simp: dropWhile_eq_self_iff hd_rev)
  then show ?thesis by simp
qed

lemma single_spaced_strip: "single_spaced s \<Longrightarrow> single_spaced (strip s)"
  unfolding strip_def by (intro single_spaced_rdrop single_spaced_dropWhile)

lemma single_spaced_sub_trailing: "single_spaced s \<Longrightarrow> single_spaced (sub_trailing s)"
  unfolding sub_trailing_def by (rule single_spaced_rdrop)

lemma single_spaced_clean_place: "single_spaced (clean_place s)"
  unfolding clean_place_def Let_def
  by (intro single_spaced_sub_trailing single_spaced_strip single_spaced_sub_space_runs)

lemma ends_clean_place:
  assumes "clean_place s \<noteq> []"
  shows "\<not> is_space (hd (clean_place s))" and "\<not> is_space (last (clean_place s))"
    and "last (clean_place s) \<noteq> CHR '',''"
proof -
  define t where "t = sub_space_runs (case s of None \<Rightarrow> [] | Some u \<Rightarrow> u)"
  have c: "clean_place s = sub_trailing (strip t)"
    by (simp add: clean_place_def t_def)
  have ne: "strip t \<noteq> []" using assms by (auto simp: c sub_trailing_def)
  have ne': "dropWhile is_space t \<noteq> []"
  proof
    assume a: "dropWhile is_space t = []"
    have "strip t = []" unfolding strip_def a by simp
    with ne show False by simp
  qed
  have "hd (clean_place s) = hd (strip t)"
    using assms unfolding c sub_trailing_def by (rule hd_rdrop)
  also have "\<dots> = hd (dropWhile is_space t)"
    using ne unfolding strip_def by (rule hd_rdrop)
  finally show "\<not> is_space (hd (clean_place s))"
    using hd_dropWhile [OF ne'] by simp
  have "\<not> (last (clean_place s) = CHR '','' \<or> is_space (last (clean_place s)))"
    using assms unfolding c sub_trailing_def by (rule last_rdrop)
  then show "\<not> is_space (last (clean_place s))" and "last (clean_place s) \<noteq> CHR '',''"
    by simp_all
qed

lemma clean_place_fixed:
  assumes "single_spaced r"
    and "r \<noteq> [] \<Longrightarrow> \<not> is_space (hd r) \<and> \<not> is_space (last r) \<and> last r \<noteq> CHR '',''"
  shows "clean_place (Some r) = r"
proof -
  have 1: "sub_space_runs r = r" using assms(1) by (rule sub_space_runs_fixed)
  have 2: "dropWhile is_space r = r" using assms(2) by (auto simp: dropWhile_eq_self_iff)
  have 3: "rev (dropWhile is_space (rev r)) = r" using assms(2) by (intro rdrop_fixed) auto
  have 4: "sub_trailing r = r"
    unfolding sub_trailing_def using assms(2) by (intro rdrop_fixed) auto
  show ?thesis by (simp add: clean_place_def strip_def 1 2 3 4)
qed

lemma clean_place_idem: "clean_place (Some (clean_place s)) = clean_place s"
  using ends_clean_place [of s] by (intro clean_place_fixed single_spaced_clean_place) simp

text \<open>Collapsing the whitespace runs and stripping gives the words, joined by single spaces.\<close>

lemma lstrip_ssr_lstrip:
  "dropWhile is_space (sub_space_runs (dropWhile is_space cs)) = dropWhile is_space (sub_space_runs cs)"
  by (cases cs) auto

lemma strip_ssr_space: "is_space c \<Longrightarrow> strip (sub_space_runs (c # cs)) = strip (sub_space_runs cs)"
  by (simp add: strip_def lstrip_ssr_lstrip)

lemma ssr_append_word:
  "list_all (\<lambda>x. \<not> is_space x) w \<Longrightarrow> sub_space_runs (w @ r) = w @ sub_space_runs r"
  by (induction w) auto

lemma split_ws_Nil_iff: "split_ws r = [] \<longleftrightarrow> list_all is_space r"
  by (induction r) auto

lemma all_space_ssr: "list_all is_space (sub_space_runs r) \<longleftrightarrow> list_all is_space r"
proof (induction r rule: sub_space_runs.induct)
  case 1
  show ?case by simp
next
  case (2 c cs)
  have "list_all is_space (dropWhile is_space cs) \<longleftrightarrow> list_all is_space cs"
    by (induction cs) auto
  with 2 show ?case by auto
qed

lemma rdrop_append_all:
  "list_all P b \<Longrightarrow> rev (dropWhile P (rev (a @ b))) = rev (dropWhile P (rev a))"
  by (simp add: dropWhile_append list_all_iff)

lemma rdrop_append_some:
  "\<not> list_all P b \<Longrightarrow> rev (dropWhile P (rev (a @ b))) = a @ rev (dropWhile P (rev b))"
  by (auto simp: dropWhile_append list_all_iff)

lemma strip_ssr_join: "strip (sub_space_runs t) = join '' '' (split_ws t)"
proof (induction t rule: split_ws.induct)
  case 1
  show ?case by (simp add: strip_def)
next
  case (2 c cs)
  show ?case
  proof (cases "is_space c")
    case True
    have "strip (sub_space_runs (c # cs)) = strip (sub_space_runs cs)"
      using True by (rule strip_ssr_space)
    also have "\<dots> = join '' '' (split_ws cs)"
      using 2(1) [OF True] .
    also have "split_ws cs = split_ws (c # cs)"
      using True by simp
    finally show ?thesis .
  next
    case False
    define w where "w = c # takeWhile (\<lambda>x. \<not> is_space x) cs"
    define r where "r = dropWhile (\<lambda>x. \<not> is_space x) cs"
    have t: "c # cs = w @ r" by (simp add: w_def r_def)
    have w: "list_all (\<lambda>x. \<not> is_space x) w"
      using False by (auto simp: w_def list_all_iff dest: set_takeWhileD)
    have IH: "strip (sub_space_runs r) = join '' '' (split_ws r)"
      using 2(2) [OF False] by (simp add: r_def)
    have sp: "split_ws (c # cs) = w # split_ws r"
      using False by (simp add: w_def r_def)
    have ssr: "sub_space_runs (c # cs) = w @ sub_space_runs r"
      unfolding t using w by (rule ssr_append_word)
    have lw: "dropWhile is_space (w @ x) = w @ x" for x
      using False by (simp add: w_def)
    have rw: "rev (dropWhile is_space (rev w)) = w"
      using w by (intro rdrop_fixed) (auto simp: w_def list_all_iff)
    show ?thesis
    proof (cases "list_all is_space r")
      case True
      then have "split_ws r = []" by (simp add: split_ws_Nil_iff)
      moreover have "strip (w @ sub_space_runs r) = w"
      proof -
        have "strip (w @ sub_space_runs r) = rev (dropWhile is_space (rev (w @ sub_space_runs r)))"
          by (simp only: strip_def lw)
        also have "\<dots> = rev (dropWhile is_space (rev w))"
          using True by (intro rdrop_append_all) (simp add: all_space_ssr)
        finally show ?thesis by (simp only: rw)
      qed
      ultimately show ?thesis unfolding sp ssr by simp
    next
      case nall: False
      then have ne: "split_ws r \<noteq> []" by (simp add: split_ws_Nil_iff)
      then obtain x xs where sx: "split_ws r = x # xs" by (cases "split_ws r") auto
      have "r \<noteq> []" using nall by auto
      then have hd: "is_space (hd r)"
        unfolding r_def using hd_dropWhile [of "\<lambda>x. \<not> is_space x" cs] by auto
      then obtain y ys where r: "r = y # ys" and y: "is_space y" using \<open>r \<noteq> []\<close> by (cases r) auto
      define z where "z = sub_space_runs (dropWhile is_space ys)"
      have sr: "sub_space_runs r = CHR '' '' # z" using y by (simp add: r z_def)
      have nz: "\<not> list_all is_space z"
        using nall all_space_ssr [of r] by (simp add: sr)
      have lz: "dropWhile is_space z = z"
      proof -
        have d: "dropWhile is_space ys \<noteq> []"
        proof
          assume a: "dropWhile is_space ys = []"
          have "z = []" unfolding z_def a by simp
          with nz show False by simp
        qed
        then have "\<not> is_space (hd (dropWhile is_space ys))" by (rule hd_dropWhile)
        then have "\<not> is_space (hd z)"
          unfolding z_def using is_space_hd_sub_space_runs [OF d] by simp
        then show ?thesis by (simp add: dropWhile_eq_self_iff)
      qed
      have "strip (sub_space_runs r) = rev (dropWhile is_space (rev z))"
        by (simp add: strip_def sr lz)
      with IH have j: "join '' '' (x # xs) = rev (dropWhile is_space (rev z))"
        by (simp only: sx)
      have "strip (w @ sub_space_runs r) = rev (dropWhile is_space (rev (w @ sub_space_runs r)))"
        by (simp only: strip_def lw)
      also have "w @ sub_space_runs r = (w @ [CHR '' '']) @ z"
        by (simp add: sr)
      also have "rev (dropWhile is_space (rev ((w @ [CHR '' '']) @ z)))
                 = (w @ [CHR '' '']) @ rev (dropWhile is_space (rev z))"
        using nz by (rule rdrop_append_some)
      finally have "strip (w @ sub_space_runs r) = w @ CHR '' '' # rev (dropWhile is_space (rev z))"
        by (simp add: sr)
      then show ?thesis
        unfolding sp ssr sx using j by simp
    qed
  qed
qed

lemma clean_place_words: "clean_place (Some t) = sub_trailing (join '' '' (split_ws t))"
  by (simp add: clean_place_def strip_ssr_join)

text \<open>
  Claim C8. The text normalizer is idempotent: normalizing twice equals normalizing once.
  It is total (the model has no failing branch, as the source has no raising one) and maps
  \<open>None\<close> and the empty text to the empty text. Its result is the words of the input joined
  by single spaces, without the run of commas and whitespace at the end: so every
  whitespace run has become one space between two other characters, the result neither
  starts nor ends with whitespace, and it does not end with a comma.
\<close>

theorem C8_clean_place_idempotent:
  "clean_place (Some (clean_place s)) = clean_place s
   \<and> clean_place None = [] \<and> clean_place (Some []) = []
   \<and> clean_place (Some t) = sub_trailing (join '' '' (split_ws t))
   \<and> single_spaced (clean_place s)
   \<and> (clean_place s \<noteq> [] \<longrightarrow>
        \<not> is_space (hd (clean_place s)) \<and> \<not> is_space (last (clean_place s))
        \<and> last (clean_place s) \<noteq> CHR '','')"
proof -
  have "clean_place None = []" and "clean_place (Some []) = []"
    by (simp_all add: clean_place_eval)
  then show ?thesis
    using ends_clean_place [of s] clean_place_words [of t] clean_place_idem [of s]
      single_spaced_clean_place [of s]
    by blast
qed

theorem C8_clean_place_witness:
  "clean_place (Some ''  Paris ,   FR , ,  '') = ''Paris , FR''
   \<and> clean_place (Some (clean_place (Some ''  Paris ,   FR , ,  ''))) = ''Paris , FR''
   \<and> sub_trailing (join '' '' (split_ws ''  Paris ,   FR , ,  '')) = ''Paris , FR''"
proof -
  have v: "clean_place (Some ''  Paris ,   FR , ,  '') = ''Paris , FR''"
    by (simp add: clean_place_eval)
  from C8_clean_place_idempotent [of "Some ''  Paris ,   FR , ,  ''" "''  Paris ,   FR , ,  ''"]
  have "clean_place (Some (clean_place (Some ''  Paris ,   FR , ,  '')))
          = clean_place (Some ''  Paris ,   FR , ,  '')"
    and "clean_place (Some ''  Paris ,   FR , ,  '')
          = sub_trailing (join '' '' (split_ws ''  Paris ,   FR , ,  ''))"
    by blast+
  then show ?thesis
    by (simp only: v)
qed

section \<open>Properties of the coordinate parser\<close>

lemma digit_not_space: "is_digit c \<Longrightarrow> \<not> is_space c"
  by (auto simp: is_digit_def is_space_def Let_def)

lemma digit_not_punct: "is_digit c \<Longrightarrow> c \<noteq> CHR '','' \<and> c \<noteq> CHR ''.'' \<and> c \<noteq> CHR ''+'' \<and> c \<noteq> CHR ''-''"
  by (auto simp: is_digit_def)

lemma space_not_digit: "is_space c \<Longrightarrow> \<not> is_digit c \<and> c \<noteq> CHR ''.'' \<and> c \<noteq> CHR '','' \<and> c \<noteq> CHR ''+'' \<and> c \<noteq> CHR ''-''"
  by (auto simp: is_digit_def is_space_def Let_def)

lemma punct_classes [simp]:
  "\<not> is_digit (CHR '','')" "\<not> is_digit (CHR ''.'')" "\<not> is_digit (CHR ''+'')" "\<not> is_digit (CHR ''-'')"
  "\<not> is_space (CHR ''.'')" "\<not> is_space (CHR ''+'')" "\<not> is_space (CHR ''-'')"
  "\<not> is_space (CHR '','')" "is_space (CHR '' '')" "\<not> is_digit (CHR '' '')"
  by (simp_all add: is_digit_def is_space_def)

lemma takeWhile_all_append:
  "list_all P xs \<Longrightarrow> ys = [] \<or> \<not> P (hd ys) \<Longrightarrow> takeWhile P (xs @ ys) = xs"
  by (induction xs) (auto simp: takeWhile_eq_Nil_iff neq_Nil_conv)

lemma dropWhile_all_append:
  "list_all P xs \<Longrightarrow> ys = [] \<or> \<not> P (hd ys) \<Longrightarrow> dropWhile P (xs @ ys) = ys"
  by (induction xs) (auto simp: dropWhile_eq_self_iff)

lemma match_number_complete:
  assumes "numeral_text a" and "r = [] \<or> (\<not> is_digit (hd r) \<and> hd r \<noteq> CHR ''.'')"
  shows "match_number (a @ r) = Some (a, r)"
proof -
  from assms(1) obtain sg ds fr where a: "a = sg @ ds @ fr"
    and sg: "sg = [] \<or> sg = ''+'' \<or> sg = ''-''" and ds: "ds \<noteq> []" "list_all is_digit ds"
    and fr: "fr = [] \<or> (\<exists>fs. fr = CHR ''.'' # fs \<and> fs \<noteq> [] \<and> list_all is_digit fs)"
    unfolding numeral_text_def by blast
  obtain d ds' where dd: "ds = d # ds'" using ds(1) by (cases ds) auto
  have d: "is_digit d" using ds(2) by (simp add: dd)
  have sign: "(case a @ r of [] \<Rightarrow> ([], a @ r)
               | c # cs \<Rightarrow> if c = CHR ''+'' \<or> c = CHR ''-'' then ([c], cs) else ([], a @ r))
              = (sg, ds @ fr @ r)"
    using sg d digit_not_punct [OF d] by (auto simp: a dd)
  have rest: "fr @ r = [] \<or> \<not> is_digit (hd (fr @ r))"
    using fr assms(2) by (auto simp: hd_append)
  have tk: "takeWhile is_digit (ds @ fr @ r) = ds"
    using ds(2) rest by (rule takeWhile_all_append)
  have dr: "dropWhile is_digit (ds @ fr @ r) = fr @ r"
    using ds(2) rest by (rule dropWhile_all_append)
  have step: "match_number (a @ r) =
      (case fr @ r of
         [] \<Rightarrow> Some (sg @ ds, fr @ r)
       | c # cs \<Rightarrow>
           if c = CHR ''.'' \<and> takeWhile is_digit cs \<noteq> []
           then Some (sg @ ds @ [c] @ takeWhile is_digit cs, dropWhile is_digit cs)
           else Some (sg @ ds, fr @ r))"
    unfolding match_number_def sign by (simp only: Let_def split_conv tk dr) (simp add: ds(1))
  show ?thesis
  proof (cases "fr = []")
    case True
    show ?thesis
      unfolding step using assms(2) by (cases r) (simp_all add: a True)
  next
    case False
    then obtain fs where f: "fr = CHR ''.'' # fs" "fs \<noteq> []" "list_all is_digit fs"
      using fr by blast
    have r: "r = [] \<or> \<not> is_digit (hd r)" using assms(2) by auto
    have tk2: "takeWhile is_digit (fs @ r) = fs" using f(3) r by (rule takeWhile_all_append)
    have dr2: "dropWhile is_digit (fs @ r) = r" using f(3) r by (rule dropWhile_all_append)
    show ?thesis
      unfolding step using f(2) by (simp add: a f(1) tk2 dr2)
  qed
qed

lemma match_number_sound:
  assumes "match_number t = Some (a, r)"
  shows "t = a @ r \<and> numeral_text a"
proof -
  define sg where "sg = (case t of [] \<Rightarrow> [] | c # cs \<Rightarrow> if c = CHR ''+'' \<or> c = CHR ''-'' then [c] else [])"
  define s1 where "s1 = (case t of [] \<Rightarrow> t | c # cs \<Rightarrow> if c = CHR ''+'' \<or> c = CHR ''-'' then cs else t)"
  have sign: "(case t of [] \<Rightarrow> ([], t)
               | c # cs \<Rightarrow> if c = CHR ''+'' \<or> c = CHR ''-'' then ([c], cs) else ([], t))
              = (sg, s1)"
    by (auto simp: sg_def s1_def split: list.splits)
  have t: "t = sg @ s1" by (auto simp: sg_def s1_def split: list.splits)
  have sg: "sg = [] \<or> sg = ''+'' \<or> sg = ''-''" by (auto simp: sg_def split: list.splits)
  define ds where "ds = takeWhile is_digit s1"
  define s2 where "s2 = dropWhile is_digit s1"
  have s1: "s1 = ds @ s2" by (simp add: ds_def s2_def)
  have dsd: "list_all is_digit ds" by (auto simp: ds_def list_all_iff dest: set_takeWhileD)
  have step: "match_number t =
      (if ds = [] then None
       else (case s2 of
         [] \<Rightarrow> Some (sg @ ds, s2)
       | c # cs \<Rightarrow>
           if c = CHR ''.'' \<and> takeWhile is_digit cs \<noteq> []
           then Some (sg @ ds @ [c] @ takeWhile is_digit cs, dropWhile is_digit cs)
           else Some (sg @ ds, s2)))"
    unfolding match_number_def sign by (simp only: Let_def split_conv ds_def s2_def)
  have ne: "ds \<noteq> []" using assms by (auto simp: step)
  show ?thesis
  proof (cases "\<exists>cs. s2 = CHR ''.'' # cs \<and> takeWhile is_digit cs \<noteq> []")
    case True
    then obtain cs where c: "s2 = CHR ''.'' # cs" "takeWhile is_digit cs \<noteq> []" by blast
    have a: "a = sg @ ds @ CHR ''.'' # takeWhile is_digit cs" and r: "r = dropWhile is_digit cs"
      using assms ne c by (simp_all add: step)
    have "list_all is_digit (takeWhile is_digit cs)"
      by (auto simp: list_all_iff dest: set_takeWhileD)
    then have "numeral_text a"
      unfolding numeral_text_def a using sg ne dsd c(2) by blast
    moreover have "t = a @ r" by (simp add: a r t s1 c(1))
    ultimately show ?thesis by simp
  next
    case False
    then have "a = sg @ ds \<and> r = s2"
      using assms ne by (auto simp: step split: list.splits if_splits)
    moreover have "numeral_text (sg @ ds)"
      unfolding numeral_text_def using sg ne dsd by (intro exI [of _ sg] exI [of _ ds] exI [of _ "[]"]) simp
    ultimately show ?thesis by (simp add: t s1)
  qed
qed

lemma numeral_text_hd:
  assumes "numeral_text a"
  shows "a \<noteq> [] \<and> \<not> is_space (hd a) \<and> hd a \<noteq> CHR '',''"
proof -
  from assms obtain sg ds fr where a: "a = sg @ ds @ fr"
    and sg: "sg = [] \<or> sg = ''+'' \<or> sg = ''-''" and ds: "ds \<noteq> []" "list_all is_digit ds"
    unfolding numeral_text_def by blast
  obtain d ds' where dd: "ds = d # ds'" using ds(1) by (cases ds) auto
  have d: "is_digit d" using ds(2) by (simp add: dd)
  show ?thesis
    using sg digit_not_space [OF d] digit_not_punct [OF d] by (auto simp: a dd)
qed

lemma match_separator_complete:
  assumes "list_all is_space w1" "list_all is_space w2" "sep = CHR '','' \<or> sep = CHR '' ''"
    and "t \<noteq> []" "\<not> is_space (hd t)" "hd t \<noteq> CHR '',''"
  shows "match_separator (w1 @ sep # w2 @ t) = Some t"
proof -
  have t: "t = [] \<or> \<not> is_space (hd t)" using assms(5) by simp
  obtain c cs where tc: "t = c # cs" using assms(4) by (cases t) auto
  show ?thesis
  proof (cases "sep = CHR '',''")
    case True
    have tk: "takeWhile is_space (w1 @ sep # w2 @ t) = w1"
      using assms(1) by (intro takeWhile_all_append) (simp_all add: True)
    have dr: "dropWhile is_space (w1 @ sep # w2 @ t) = sep # w2 @ t"
      using assms(1) by (intro dropWhile_all_append) (simp_all add: True)
    have d2: "dropWhile is_space (w2 @ t) = t"
      using assms(2) t by (rule dropWhile_all_append)
    show ?thesis
      unfolding match_separator_def by (simp only: Let_def tk dr) (simp add: True d2)
  next
    case False
    then have sp: "sep = CHR '' ''" using assms(3) by simp
    have all: "list_all is_space (w1 @ sep # w2)" using assms(1,2) by (simp add: sp)
    have tk: "takeWhile is_space ((w1 @ sep # w2) @ t) = w1 @ sep # w2"
      using all t by (rule takeWhile_all_append)
    have dr: "dropWhile is_space ((w1 @ sep # w2) @ t) = t"
      using all t by (rule dropWhile_all_append)
    have e: "w1 @ sep # w2 @ t = (w1 @ sep # w2) @ t" by simp
    show ?thesis
      unfolding match_separator_def e by (simp only: Let_def tk dr) (use assms(6) in \<open>simp add: tc sp\<close>)
  qed
qed

lemma match_separator_sound:
  assumes "match_separator r1 = Some r2"
  shows "\<exists>w1 sep w2. r1 = w1 @ sep # w2 @ r2 \<and> list_all is_space w1 \<and> list_all is_space w2
           \<and> (sep = CHR '','' \<or> sep = CHR '' '')"
proof -
  define w where "w = takeWhile is_space r1"
  define r where "r = dropWhile is_space r1"
  have r1: "r1 = w @ r" by (simp add: w_def r_def)
  have w: "list_all is_space w" by (auto simp: w_def list_all_iff dest: set_takeWhileD)
  have step: "match_separator r1 =
      (case r of
         [] \<Rightarrow> if CHR '' '' \<in> set w then Some r else None
       | c # cs \<Rightarrow>
           if c = CHR '','' then Some (dropWhile is_space cs)
           else if CHR '' '' \<in> set w then Some r else None)"
    unfolding match_separator_def by (simp only: Let_def w_def r_def)
  show ?thesis
  proof (cases "\<exists>cs. r = CHR '','' # cs")
    case True
    then obtain cs where c: "r = CHR '','' # cs" by blast
    have r2: "r2 = dropWhile is_space cs" using assms by (simp add: step c)
    have "r1 = w @ CHR '','' # takeWhile is_space cs @ r2"
      by (simp add: r1 c r2)
    moreover have "list_all is_space (takeWhile is_space cs)"
      by (auto simp: list_all_iff dest: set_takeWhileD)
    ultimately show ?thesis using w by blast
  next
    case False
    then have in_w: "CHR '' '' \<in> set w" and r2: "r2 = r"
      using assms by (auto simp: step split: list.splits if_splits)
    from in_w obtain u v where uv: "w = u @ CHR '' '' # v" by (meson split_list)
    have "r1 = u @ CHR '' '' # v @ r2" by (simp add: r1 uv r2)
    moreover have "list_all is_space u" "list_all is_space v" using w by (simp_all add: uv)
    ultimately show ?thesis by blast
  qed
qed

lemma parse_latlon_iff:
  "parse_latlon s = Some (x, y) \<longleftrightarrow> (\<exists>a b. latlon_text s a b \<and> x = float_of a \<and> y = float_of b)"
proof
  assume p: "parse_latlon s = Some (x, y)"
  then obtain a r1 where m1: "match_number (dropWhile is_space s) = Some (a, r1)"
    by (auto simp: parse_latlon_def split: option.splits)
  from p m1 obtain r2 where m2: "match_separator r1 = Some r2"
    by (auto simp: parse_latlon_def split: option.splits)
  from p m1 m2 obtain b r3 where m3: "match_number r2 = Some (b, r3)"
    by (auto simp: parse_latlon_def split: option.splits)
  from p m1 m2 m3 have r3: "dropWhile is_space r3 = []" and xy: "x = float_of a" "y = float_of b"
    by (auto simp: parse_latlon_def split: if_splits)
  from match_number_sound [OF m1] have 1: "dropWhile is_space s = a @ r1" "numeral_text a" by auto
  from match_separator_sound [OF m2] obtain w1 sep w2 where
    2: "r1 = w1 @ sep # w2 @ r2" "list_all is_space w1" "list_all is_space w2"
       "sep = CHR '','' \<or> sep = CHR '' ''" by blast
  from match_number_sound [OF m3] have 3: "r2 = b @ r3" "numeral_text b" by auto
  have "s = takeWhile is_space s @ a @ w1 @ sep # w2 @ b @ r3"
    using takeWhile_dropWhile_id [of is_space s] by (simp add: 1(1) 2(1) 3(1))
  moreover have "list_all is_space (takeWhile is_space s)"
    by (auto simp: list_all_iff dest: set_takeWhileD)
  moreover have "list_all is_space r3" using r3 by (simp add: list_all_iff)
  ultimately have "latlon_text s a b"
    unfolding latlon_text_def using 1(2) 2(2,3,4) 3(2) by blast
  then show "\<exists>a b. latlon_text s a b \<and> x = float_of a \<and> y = float_of b"
    using xy by blast
next
  assume "\<exists>a b. latlon_text s a b \<and> x = float_of a \<and> y = float_of b"
  then obtain a b w0 w1 sep w2 w3 where s: "s = w0 @ a @ w1 @ sep # w2 @ b @ w3"
    and w: "list_all is_space w0" "list_all is_space w1" "list_all is_space w2" "list_all is_space w3"
    and sep: "sep = CHR '','' \<or> sep = CHR '' ''" and n: "numeral_text a" "numeral_text b"
    and xy: "x = float_of a" "y = float_of b"
    unfolding latlon_text_def by blast
  note ha = numeral_text_hd [OF n(1)] and hb = numeral_text_hd [OF n(2)]
  have d0: "dropWhile is_space s = a @ (w1 @ sep # w2 @ b @ w3)"
    unfolding s using w(1) ha by (intro dropWhile_all_append) (simp_all add: hd_append)
  have nd: "\<not> is_digit (hd (w1 @ sep # w2 @ b @ w3)) \<and> hd (w1 @ sep # w2 @ b @ w3) \<noteq> CHR ''.''"
    using w(2) sep space_not_digit by (cases w1) auto
  have m1: "match_number (dropWhile is_space s) = Some (a, w1 @ sep # w2 @ b @ w3)"
    unfolding d0 using n(1) nd by (intro match_number_complete) simp_all
  have m2: "match_separator (w1 @ sep # w2 @ (b @ w3)) = Some (b @ w3)"
    using w(2,3) sep hb by (intro match_separator_complete) (simp_all add: hd_append)
  have nd3: "w3 = [] \<or> (\<not> is_digit (hd w3) \<and> hd w3 \<noteq> CHR ''.'')"
    using w(4) space_not_digit by (cases w3) auto
  have m3: "match_number (b @ w3) = Some (b, w3)"
    using n(2) nd3 by (rule match_number_complete)
  show "parse_latlon s = Some (x, y)"
    using w(4) by (simp add: parse_latlon_def m1 m2 m3 xy list_all_iff)
qed

lemma parse_latlon_None_iff: "parse_latlon s = None \<longleftrightarrow> \<not> (\<exists>a b. latlon_text s a b)"
proof -
  have "parse_latlon s = None \<longleftrightarrow> \<not> (\<exists>x y. parse_latlon s = Some (x, y))"
    by (cases "parse_latlon s") auto
  then show ?thesis
    unfolding parse_latlon_iff by blast
qed

lemma parse_latlon_pair:
  assumes "numeral_text a" and "numeral_text b"
  shows "parse_latlon (a @ '','' @ b) = Some (float_of a, float_of b)"
proof -
  have "a @ '','' @ b = [] @ a @ [] @ CHR '','' # [] @ b @ []" by simp
  moreover have "list_all is_space []" by simp
  ultimately have "latlon_text (a @ '','' @ b) a b"
    unfolding latlon_text_def using assms by blast
  then show ?thesis
    unfolding parse_latlon_iff by blast
qed

text \<open>
  Claim C7. The coordinate parser reads \<open>"55.676,12.568"\<close>, \<open>"55.676, 12.568"\<close> and
  \<open>"55.676 12.568"\<close> as the pair (55.676, 12.568), latitude first; it does not match
  \<open>"Copenhagen, DK"\<close>. A text matches exactly when it has the form of the pattern, and
  then the result is the value of its first numeral and the value of its second, in this
  order; on any other text the result is the no-match value \<open>None\<close>, not an error. No range
  is validated: any two numerals with a comma between them are accepted with their values,
  such as \<open>"999,999"\<close> as (999, 999).
\<close>

theorem C7_parse_latlon:
  "parse_latlon ''55.676,12.568'' = Some (55.676, 12.568)
   \<and> parse_latlon ''55.676, 12.568'' = Some (55.676, 12.568)
   \<and> parse_latlon ''55.676 12.568'' = Some (55.676, 12.568)
   \<and> parse_latlon ''Copenhagen, DK'' = None
   \<and> parse_latlon ''999,999'' = Some (999, 999)
   \<and> (parse_latlon s = Some (x, y)
        \<longleftrightarrow> (\<exists>a b. latlon_text s a b \<and> x = float_of a \<and> y = float_of b))
   \<and> (parse_latlon s = None \<longleftrightarrow> \<not> (\<exists>a b. latlon_text s a b))
   \<and> (numeral_text a \<and> numeral_text b
        \<longrightarrow> parse_latlon (a @ '','' @ b) = Some (float_of a, float_of b))"
proof -
  have "parse_latlon ''55.676,12.568'' = Some (55.676, 12.568)"
    and "parse_latlon ''55.676, 12.568'' = Some (55.676, 12.568)"
    and "parse_latlon ''55.676 12.568'' = Some (55.676, 12.568)"
    and "parse_latlon ''Copenhagen, DK'' = None"
    and "parse_latlon ''999,999'' = Some (999, 999)"
    by (simp_all add: parse_latlon_eval)
  then show ?thesis
    using parse_latlon_iff [of s x y] parse_latlon_None_iff [of s] parse_latlon_pair [of a b]
    by blast
qed

theorem C7_parse_latlon_witness:
  "numeral_text ''-1000.5'' \<and> numeral_text ''999''
   \<and> parse_latlon ''-1000.5,999'' = Some (- 1000.5, 999)"
proof -
  have a: "numeral_text ''-1000.5''"
    unfolding numeral_text_def
    by (intro exI [of _ "''-''"] exI [of _ "''1000''"] exI [of _ "''.5''"])
      (simp add: is_digit_def)
  have b: "numeral_text ''999''"
    unfolding numeral_text_def
    by (intro exI [of _ "[]"] exI [of _ "''999''"] exI [of _ "[]"]) (simp add: is_digit_def)
  from C7_parse_latlon [of _ _ _ "''-1000.5''" "''999''"] a b
  have "parse_latlon (''-1000.5'' @ '','' @ ''999'') = Some (float_of ''-1000.5'', float_of ''999'')"
    by blast
  then have "parse_latlon ''-1000.5,999'' = Some (- 1000.5, 999)"
    by (simp add: float_of_def digits_value_def is_digit_def)
  with a b show ?thesis by blast
qed

section \<open>Properties of the candidate list\<close>

text \<open>
  Claim C2, as amended. For the normalized input \<open>"Paris, FR"\<close> the candidate list is, in
  this order and without duplicates, \<open>"Paris, FR"\<close>, \<open>"Paris"\<close> and \<open>"Paris  FR"\<close>: the third
  candidate is the text with every character that is not a word character, whitespace,
  hyphen or apostrophe replaced by a space and then trimmed, so the comma becomes a second
  space next to the one that follows it.
\<close>

theorem C2_candidates_paris:
  "clean_place (Some ''Paris, FR'') = ''Paris, FR''
   \<and> queries (candidates ''Paris, FR'') [] = [''Paris, FR'', ''Paris'', ''Paris  FR'']
   \<and> distinct (queries (candidates ''Paris, FR'') [])
   \<and> strip (map (\<lambda>c. if is_word c \<or> is_space c \<or> c = CHR ''-'' \<or> c = CHR 0x27 then c
                        else CHR '' '') ''Paris, FR'') = ''Paris  FR''"
  by (simp add: clean_place_eval) (simp add: candidates_eval)

text \<open>
  The list that claim C2 states, with one space in the third candidate, is not the list
  of the code.
\<close>

theorem C2_candidates_paris_counterexample:
  "queries (candidates ''Paris, FR'') [] \<noteq> [''Paris, FR'', ''Paris'', ''Paris FR'']"
  by (simp add: candidates_eval)

text \<open>
  The comprehension is evaluated against the empty \<open>tried\<close>, so a text that the list
  \<open>candidates\<close> holds twice is queried twice.
\<close>

lemma queries_keep_duplicates: "queries (candidates ''Paris'') [] = [''Paris'', ''Paris'']"
  by (simp add: candidates_eval)

section \<open>Properties of the geocode resolver\<close>

text \<open>
  Claim C4. For every input whose normalized text matches the coordinate pattern, the
  resolver makes no network call (the list of requests is returned unchanged) and returns
  a location whose latitude and longitude are the parsed pair, whose name is the input
  text, and whose country and admin1 are \<open>None\<close>.
\<close>

theorem C4_coordinates_short_circuit:
  "parse_latlon (clean_place (Some place)) = Some (lat, lon)
   \<Longrightarrow> geocode net place lang sent =
       (Inr (JObj [(''name'', JStr place), (''country'', JNull), (''admin1'', JNull),
                   (''latitude'', JNum lat), (''longitude'', JNum lon)]),
        sent)"
  by (simp add: geocode_def)

theorem C4_coordinates_short_circuit_witness:
  "parse_latlon (clean_place (Some ''55.676,12.568'')) = Some (55.676, 12.568)
   \<and> geocode (always Get_Raises) ''55.676,12.568'' ''en'' [] =
       (Inr (JObj [(''name'', JStr ''55.676,12.568''), (''country'', JNull),
                   (''admin1'', JNull), (''latitude'', JNum 55.676),
                   (''longitude'', JNum 12.568)]),
        [])"
proof -
  have c: "clean_place (Some ''55.676,12.568'') = ''55.676,12.568''"
    by (simp add: clean_place_eval)
  have h: "parse_latlon (clean_place (Some ''55.676,12.568'')) = Some (55.676, 12.568)"
    unfolding c by (simp add: parse_latlon_eval)
  from C4_coordinates_short_circuit [OF h, of "always Get_Raises" "''en''" "[]"] h
  show ?thesis by simp
qed

subsection \<open>The loop over the queries\<close>

lemma no_results_fetch:
  "no_results (net sent req) \<Longrightarrow>
   \<exists>data results. fetch net req sent = (Inr data, sent @ [req])
      \<and> py_get data ''results'' JNull = Inr results \<and> \<not> truthy results"
  by (cases "net sent req") (auto simp: fetch_def split: sum.splits)

lemma geocode_loop_step_empty:
  assumes "no_results (net sent (geocoding_request q lang))"
  shows "geocode_loop net place lang (q # qs) tried sent =
         geocode_loop net place lang qs (tried @ [q]) (sent @ [geocoding_request q lang])"
  using no_results_fetch [where net = net and sent = sent and req = "geocoding_request q lang"]
    assms
  by auto

lemma reply_at_0: "reply_at net sent lang (q # qs) 0 = net sent (geocoding_request q lang)"
  by (simp add: reply_at_def lookups_def)

lemma reply_at_Suc:
  "reply_at net sent lang (q # qs) (Suc j) =
   reply_at net (sent @ [geocoding_request q lang]) lang qs j"
  by (simp add: reply_at_def lookups_def)

lemma geocode_loop_skip:
  "i \<le> length qs \<Longrightarrow> \<forall>j<i. no_results (reply_at net sent lang qs j) \<Longrightarrow>
   geocode_loop net place lang qs tried sent =
   geocode_loop net place lang (drop i qs) (tried @ take i qs) (sent @ lookups lang (take i qs))"
proof (induction i arbitrary: qs tried sent)
  case 0
  then show ?case by (simp add: lookups_def)
next
  case (Suc i)
  then obtain q qs' where qs: "qs = q # qs'" by (cases qs) auto
  have first: "no_results (net sent (geocoding_request q lang))"
    using Suc.prems(2) [rule_format, of 0] by (simp add: qs reply_at_0)
  have rest: "\<forall>j<i. no_results (reply_at net (sent @ [geocoding_request q lang]) lang qs' j)"
    using Suc.prems(2) by (auto simp: qs reply_at_Suc [symmetric])
  have "i \<le> length qs'" using Suc.prems(1) by (simp add: qs)
  from Suc.IH [OF this rest, of "tried @ [q]"]
    geocode_loop_step_empty [where net = net and sent = sent and q = q and lang = lang
      and place = place and qs = qs' and tried = tried]
    first
  show ?case by (simp add: qs lookups_def)
qed

lemma geocode_loop_all_empty:
  assumes "\<forall>j<length qs. no_results (reply_at net sent lang qs j)"
  shows "geocode_loop net place lang qs tried sent =
         (Inl (ValueError (not_found_message place (tried @ qs))), sent @ lookups lang qs)"
  using geocode_loop_skip [OF le_refl assms, of place tried] by simp

lemma geocode_loop_at:
  assumes "i < length qs" and "\<forall>j<i. no_results (reply_at net sent lang qs j)"
  shows "geocode_loop net place lang qs tried sent =
         geocode_loop net place lang (qs ! i # drop (Suc i) qs) (tried @ take i qs)
           (sent @ lookups lang (take i qs))"
  using geocode_loop_skip [OF _ assms(2), of place tried] assms(1)
  by (simp add: Cons_nth_drop_Suc)

lemma lookups_take_Suc:
  "i < length qs \<Longrightarrow>
   lookups lang (take (Suc i) qs) = lookups lang (take i qs) @ [geocoding_request (qs ! i) lang]"
  by (simp add: lookups_def take_Suc_conv_app_nth)

lemma geocode_loop_hit:
  assumes "i < length qs" and "\<forall>j<i. no_results (reply_at net sent lang qs j)"
    and "reply_at net sent lang qs i = Returns data"
    and "item_str data ''results'' = Inr (JArr (r # rs))"
  shows "geocode_loop net place lang qs tried sent =
         (Inr r, sent @ lookups lang (take (Suc i) qs))"
proof -
  obtain kvs where d: "data = JObj kvs" using assms(4) by (cases data) auto
  have g: "py_get data ''results'' JNull = Inr (JArr (r # rs))"
    using assms(4) by (auto simp: d split: option.splits)
  show ?thesis
    using assms(3,4) g
    by (simp add: geocode_loop_at [OF assms(1,2)] fetch_def reply_at_def
          lookups_take_Suc [OF assms(1)])
qed

lemma geocode_loop_status:
  assumes "i < length qs" and "\<forall>j<i. no_results (reply_at net sent lang qs j)"
    and "reply_at net sent lang qs i = Status_Raises"
  shows "geocode_loop net place lang qs tried sent =
         (Inl HTTPStatusError, sent @ lookups lang (take (Suc i) qs))"
  using assms(3)
  by (simp add: geocode_loop_at [OF assms(1,2)] fetch_def reply_at_def
        lookups_take_Suc [OF assms(1)])

lemma geocode_loop_prefix:
  "\<exists>k\<le>length qs.
     snd (geocode_loop net place lang qs tried sent) = sent @ lookups lang (take k qs)"
proof (induction qs arbitrary: tried sent)
  case Nil
  then show ?case by (simp add: lookups_def)
next
  case (Cons q qs)
  let ?req = "geocoding_request q lang"
  have one: "sent @ [?req] = sent @ lookups lang (take (Suc 0) (q # qs))"
    by (simp add: lookups_def)
  show ?case
  proof (cases "snd (geocode_loop net place lang (q # qs) tried sent) = sent @ [?req]")
    case True
    then show ?thesis using one by (intro exI [of _ "Suc 0"]) simp
  next
    case False
    then have "geocode_loop net place lang (q # qs) tried sent =
               geocode_loop net place lang qs (tried @ [q]) (sent @ [?req])"
      by (auto simp: fetch_def split: reply.splits sum.splits if_splits)
    moreover obtain k where "k \<le> length qs"
      "snd (geocode_loop net place lang qs (tried @ [q]) (sent @ [?req]))
       = (sent @ [?req]) @ lookups lang (take k qs)"
      using Cons.IH by blast
    ultimately show ?thesis
      by (intro exI [of _ "Suc k"]) (simp add: lookups_def)
  qed
qed

lemma distinct_lookups: "distinct qs \<Longrightarrow> distinct (lookups lang (take k qs))"
  by (simp add: lookups_def distinct_map inj_on_def geocoding_request_def)

text \<open>
  The loop over a given list of queries. It looks the entries up in the order of the list:
  the requests it adds are the lookups of a prefix of the list, and no two of them are
  equal when no two entries of the list are. A lookup with zero results makes it go on
  with the next entry. When the entries before position \<open>i\<close> have zero results and entry \<open>i\<close>
  has at least one, it returns the first result of that lookup unchanged and looks no
  later entry up; when instead the lookup of entry \<open>i\<close> has a non-success status, the
  resolution fails with that error at once, and no later entry is tried.
\<close>

lemma geocode_loop_behaviour:
  "(\<exists>k\<le>length qs.
      snd (geocode_loop net place lang qs tried sent) = sent @ lookups lang (take k qs)
      \<and> (distinct qs \<longrightarrow> distinct (lookups lang (take k qs))))
   \<and> (i \<le> length qs \<and> (\<forall>j<i. no_results (reply_at net sent lang qs j)) \<longrightarrow>
        geocode_loop net place lang qs tried sent =
        geocode_loop net place lang (drop i qs) (tried @ take i qs)
          (sent @ lookups lang (take i qs)))
   \<and> (i < length qs \<and> (\<forall>j<i. no_results (reply_at net sent lang qs j))
        \<and> reply_at net sent lang qs i = Returns data
        \<and> item_str data ''results'' = Inr (JArr (r # rs)) \<longrightarrow>
        geocode_loop net place lang qs tried sent =
        (Inr r, sent @ lookups lang (take (Suc i) qs)))
   \<and> (i < length qs \<and> (\<forall>j<i. no_results (reply_at net sent lang qs j))
        \<and> reply_at net sent lang qs i = Status_Raises \<longrightarrow>
        geocode_loop net place lang qs tried sent =
        (Inl HTTPStatusError, sent @ lookups lang (take (Suc i) qs)))"
  using geocode_loop_prefix [of qs net place lang tried sent] distinct_lookups [of qs lang]
    geocode_loop_skip [of i qs net sent lang place tried]
    geocode_loop_hit [of i qs net sent lang data r rs place tried]
    geocode_loop_status [of i qs net sent lang place tried]
  by blast

lemma geocode_loop_behaviour_example:
  "geocode_loop (scripted [Returns (JObj []), Returns (JObj [(''results'', JArr [paris])])])
     ''Paris, FR'' ''en'' [''Paris, FR'', ''Paris'', ''Paris  FR''] [] []
   = (Inr paris, [geocoding_request ''Paris, FR'' ''en'', geocoding_request ''Paris'' ''en''])
   \<and> geocode_loop (scripted [Returns (JObj []), Status_Raises])
     ''Paris, FR'' ''en'' [''Paris, FR'', ''Paris'', ''Paris  FR''] [] []
   = (Inl HTTPStatusError,
      [geocoding_request ''Paris, FR'' ''en'', geocoding_request ''Paris'' ''en''])"
proof -
  let ?qs = "[''Paris, FR'', ''Paris'', ''Paris  FR'']"
  let ?hit = "scripted [Returns (JObj []), Returns (JObj [(''results'', JArr [paris])])]"
  let ?bad = "scripted [Returns (JObj []), Status_Raises]"
  have one: "j < Suc 0 \<longleftrightarrow> j = 0" for j :: nat by auto
  from geocode_loop_behaviour [of ?qs ?hit "''Paris, FR''" "''en''" "[]" "[]" "Suc 0"
      "JObj [(''results'', JArr [paris])]" paris "[]", THEN conjunct2, THEN conjunct2, THEN conjunct1]
  have a: "geocode_loop ?hit ''Paris, FR'' ''en'' ?qs [] []
           = (Inr paris, [] @ lookups ''en'' (take (Suc (Suc 0)) ?qs))"
    by (simp add: one reply_at_def scripted_def lookups_def del: geocode_loop.simps)
  from geocode_loop_behaviour [of ?qs ?bad "''Paris, FR''" "''en''" "[]" "[]" "Suc 0",
      THEN conjunct2, THEN conjunct2, THEN conjunct2]
  have b: "geocode_loop ?bad ''Paris, FR'' ''en'' ?qs [] []
           = (Inl HTTPStatusError, [] @ lookups ''en'' (take (Suc (Suc 0)) ?qs))"
    by (simp add: one reply_at_def scripted_def lookups_def del: geocode_loop.simps)
  show ?thesis
    unfolding a b by (simp add: lookups_def)
qed

text \<open>
  The \<open>repr\<close> of a text of printable characters without a single quote or a backslash is
  the text between single quotes.
\<close>

lemma repr_char_plain:
  "is_printable c \<Longrightarrow> c \<noteq> CHR 0x27 \<Longrightarrow> c \<noteq> CHR 0x5C \<Longrightarrow> repr_char (CHR 0x27) c = [c]"
  by (auto simp: repr_char_def is_printable_def)

lemma concat_repr_plain:
  "\<forall>c\<in>set s. is_printable c \<and> c \<noteq> CHR 0x27 \<and> c \<noteq> CHR 0x5C
   \<Longrightarrow> concat (map (repr_char (CHR 0x27)) s) = s"
  by (induction s) (simp_all add: repr_char_plain)

lemma py_repr_plain:
  assumes "\<forall>c\<in>set s. is_printable c \<and> c \<noteq> CHR 0x27 \<and> c \<noteq> CHR 0x5C"
  shows "py_repr s = [CHR 0x27] @ s @ [CHR 0x27]"
proof -
  have "CHR 0x27 \<notin> set s"
    using assms by auto
  then show ?thesis
    using concat_repr_plain [OF assms] by (simp add: py_repr_def Let_def)
qed

text \<open>
  When the input is not a coordinate pair and every lookup yields zero results, the
  resolver fails with the error "No location found for ... (tried: ...)": the message
  holds the input text, as \<open>repr\<close> prints it, and the attempted queries joined by \<open>", "\<close>;
  the attempted queries, which are also the lookups issued, are the list that the loop
  iterates over.
\<close>

lemma geocode_not_found:
  assumes "parse_latlon (clean_place (Some place)) = None"
    and "\<forall>j<length (queries (candidates (clean_place (Some place))) []).
           no_results (reply_at net sent lang (queries (candidates (clean_place (Some place))) []) j)"
  shows "geocode net place lang sent =
         (Inl (ValueError (''No location found for '' @ py_repr place @ '' (tried: ''
                 @ join '', '' (queries (candidates (clean_place (Some place))) []) @ '').'')),
          sent @ lookups lang (queries (candidates (clean_place (Some place))) []))"
  using assms(1) geocode_loop_all_empty [OF assms(2), of place "[]"]
  by (simp add: geocode_def not_found_message_def Let_def)

lemma keep_first_twice: "c \<noteq> [] \<Longrightarrow> keep_first [] [c, c] = [c]"
  by simp

text \<open>
  Claim C5 holds of the loop for the order, the fallback after zero results, the return
  of the first result and the abort on a non-success status, as shown above. Its "each at
  most once" fails on the code: the candidates of \<open>"Paris"\<close> are the text itself and the
  text without punctuation, which is the same text; the comprehension that is meant to
  leave tried texts out is evaluated before the loop, when \<open>tried\<close> is empty, and keeps
  both. With zero results for every lookup the resolver sends the lookup of \<open>"Paris"\<close>
  twice, where the candidate list of the specification has \<open>"Paris"\<close> once.
\<close>

theorem C5_same_query_twice:
  "geocode (always (Returns (JObj []))) ''Paris'' ''en'' [] =
   (Inl (ValueError (''No location found for '' @ [CHR 0x27] @ ''Paris'' @ [CHR 0x27]
           @ '' (tried: Paris, Paris).'')),
    [geocoding_request ''Paris'' ''en'', geocoding_request ''Paris'' ''en''])
   \<and> spec_candidates (clean_place (Some ''Paris'')) = [''Paris'']"
proof -
  have c: "clean_place (Some ''Paris'') = ''Paris''"
    by (simp add: clean_place_eval)
  have p: "parse_latlon (clean_place (Some ''Paris'')) = None"
    unfolding c by (simp add: parse_latlon_eval)
  have cs: "candidates ''Paris'' = [''Paris'', ''Paris'']"
    by (simp add: candidates_def strip_def is_space_def is_word_def)
  have q: "queries (candidates (clean_place (Some ''Paris''))) [] = [''Paris'', ''Paris'']"
    unfolding c cs by (simp add: queries_def)
  have e: "\<forall>j<length (queries (candidates (clean_place (Some ''Paris''))) []).
             no_results (reply_at (always (Returns (JObj []))) [] ''en''
               (queries (candidates (clean_place (Some ''Paris''))) []) j)"
    by (simp add: reply_at_def always_def)
  have r: "py_repr ''Paris'' = [CHR 0x27] @ ''Paris'' @ [CHR 0x27]"
    by (simp add: message_eval)
  have g: "geocode (always (Returns (JObj []))) ''Paris'' ''en'' [] =
           (Inl (ValueError (''No location found for '' @ [CHR 0x27] @ ''Paris'' @ [CHR 0x27]
                   @ '' (tried: Paris, Paris).'')),
            [geocoding_request ''Paris'' ''en'', geocoding_request ''Paris'' ''en''])"
    using geocode_not_found [OF p e] unfolding q r by (simp add: lookups_def)
  have "spec_candidates (clean_place (Some ''Paris'')) = [''Paris'']"
    unfolding c spec_candidates_def cs by (rule keep_first_twice) simp
  with g show ?thesis by (rule conjI)
qed

text \<open>
  Claim C6 fails on the code at its own example. For \<open>"Qwzxylopolis"\<close>, with zero results
  for every lookup, the error is the "No location found" error and holds the input text
  and the attempted queries, but these are two, \<open>"Qwzxylopolis"\<close> twice, while the candidate
  list of the specification for this input has one entry. The cause is the one of claim
  C5: the test \<open>c not in tried\<close> is evaluated before \<open>tried\<close> is filled.
\<close>

theorem C6_tried_list_longer_than_candidates:
  "geocode (always (Returns (JObj []))) ''Qwzxylopolis'' ''en'' [] =
   (Inl (ValueError (''No location found for '' @ [CHR 0x27] @ ''Qwzxylopolis'' @ [CHR 0x27]
           @ '' (tried: Qwzxylopolis, Qwzxylopolis).'')),
    [geocoding_request ''Qwzxylopolis'' ''en'', geocoding_request ''Qwzxylopolis'' ''en''])
   \<and> queries (candidates (clean_place (Some ''Qwzxylopolis''))) []
       = [''Qwzxylopolis'', ''Qwzxylopolis'']
   \<and> spec_candidates (clean_place (Some ''Qwzxylopolis'')) = [''Qwzxylopolis'']"
proof -
  have c: "clean_place (Some ''Qwzxylopolis'') = ''Qwzxylopolis''"
    by (simp add: clean_place_eval)
  have p: "parse_latlon (clean_place (Some ''Qwzxylopolis'')) = None"
    unfolding c by (simp add: parse_latlon_eval)
  have cs: "candidates ''Qwzxylopolis'' = [''Qwzxylopolis'', ''Qwzxylopolis'']"
    by (simp add: candidates_def strip_def is_space_def is_word_def)
  have q: "queries (candidates (clean_place (Some ''Qwzxylopolis''))) []
           = [''Qwzxylopolis'', ''Qwzxylopolis'']"
    unfolding c cs by (simp add: queries_def)
  have e: "\<forall>j<length (queries (candidates (clean_place (Some ''Qwzxylopolis''))) []).
             no_results (reply_at (always (Returns (JObj []))) [] ''en''
               (queries (candidates (clean_place (Some ''Qwzxylopolis''))) []) j)"
    by (simp add: reply_at_def always_def)
  have r: "py_repr ''Qwzxylopolis'' = [CHR 0x27] @ ''Qwzxylopolis'' @ [CHR 0x27]"
    by (simp add: message_eval)
  have g: "geocode (always (Returns (JObj []))) ''Qwzxylopolis'' ''en'' [] =
           (Inl (ValueError (''No location found for '' @ [CHR 0x27] @ ''Qwzxylopolis''
                   @ [CHR 0x27] @ '' (tried: Qwzxylopolis, Qwzxylopolis).'')),
            [geocoding_request ''Qwzxylopolis'' ''en'', geocoding_request ''Qwzxylopolis'' ''en''])"
    using geocode_not_found [OF p e] unfolding q r by (simp add: lookups_def)
  have "spec_candidates (clean_place (Some ''Qwzxylopolis'')) = [''Qwzxylopolis'']"
    unfolding c spec_candidates_def cs by (rule keep_first_twice) simp
  with g q show ?thesis by blast
qed

lemma parse_latlon_Nil: "parse_latlon [] = None"
  by (simp add: parse_latlon_eval)

lemma candidates_Nil: "candidates [] = [[], []]"
  by (simp add: candidates_def strip_def)

text \<open>
  Claim C10. For every input whose normalized form is the empty text, the two candidates
  are empty and are filtered out, the resolver makes no network call, and it raises the
  "No location found" error with an empty list of attempted queries.
\<close>

theorem C10_empty_input:
  "clean_place (Some place) = []
   \<Longrightarrow> candidates (clean_place (Some place)) = [[], []]
       \<and> queries (candidates (clean_place (Some place))) [] = []
       \<and> geocode net place lang sent =
           (Inl (ValueError (''No location found for '' @ py_repr place @ '' (tried: '' @ '').'')),
            sent)"
  by (simp add: geocode_def parse_latlon_Nil candidates_Nil queries_def not_found_message_def Let_def)

theorem C10_empty_input_witness:
  "clean_place (Some '''') = [] \<and> clean_place (Some ''   '') = []
   \<and> clean_place (Some '' , , '') = []
   \<and> geocode (always (Returns (JObj [(''results'', JArr [paris])]))) '' , , '' ''en'' [] =
       (Inl (ValueError (''No location found for '' @ [CHR 0x27] @ '' , , '' @ [CHR 0x27]
               @ '' (tried: ).'')),
        [])"
proof -
  have h: "clean_place (Some '' , , '') = []"
    by (simp add: clean_place_eval)
  have r: "py_repr '' , , '' = [CHR 0x27] @ '' , , '' @ [CHR 0x27]"
    by (simp add: message_eval)
  from C10_empty_input [OF h, of "always (Returns (JObj [(''results'', JArr [paris])]))" "''en''" "[]"]
  show ?thesis unfolding r by (simp add: clean_place_eval)
qed

section \<open>Properties of the forecast tool\<close>

subsection \<open>Reshaping the daily arrays\<close>

lemma daily_loop_ok:
  "\<forall>i\<in>set is. daily_entry data tc i = Inr (f i) \<Longrightarrow>
   daily_loop data tc is acc = Inr (acc @ map f is)"
  by (induction "is" arbitrary: acc) simp_all

lemma daily_loop_fail:
  "\<forall>j\<in>set pre. daily_entry data tc j = Inr (f j) \<Longrightarrow> daily_entry data tc i = Inl e \<Longrightarrow>
   daily_loop data tc (pre @ i # post) acc = Inl e"
  by (induction pre arbitrary: acc) simp_all

lemma daily_column_arr:
  "item_str data ''daily'' = Inr d \<Longrightarrow> item_str d key = Inr (JArr xs) \<Longrightarrow>
   daily_column data key i = (if i < length xs then Inr (xs ! i) else Inl IndexError)"
  by (simp add: daily_column_def)

text \<open>
  Claim C3, as amended. Take a forecast response whose daily values (dates, maximum and
  minimum temperatures, precipitation sums, weather codes) are arrays. When none of the
  other four arrays is shorter than the array of dates (in particular when all five have
  the same length \<open>n\<close>), the reshaped \<open>daily\<close> has one entry per date, and the fields of entry
  \<open>i\<close> are the elements at index \<open>i\<close> of the five arrays; elements beyond the number of dates
  are ignored. When one of the other four arrays is shorter than the array of dates, the
  reshaping fails with an index-out-of-range error.
\<close>

theorem C3_reshape_daily:
  assumes "item_str data ''daily'' = Inr d"
    and "item_str d ''time'' = Inr (JArr ts)"
    and "item_str d ''temperature_2m_max'' = Inr (JArr mx)"
    and "item_str d ''temperature_2m_min'' = Inr (JArr mn)"
    and "item_str d ''precipitation_sum'' = Inr (JArr pr)"
    and "item_str d ''weathercode'' = Inr (JArr wc)"
  shows "(length ts \<le> length mx \<and> length ts \<le> length mn
          \<and> length ts \<le> length pr \<and> length ts \<le> length wc
          \<longrightarrow> reshape_daily data = Inr (map (daily_dict ts mx mn pr wc) [0..<length ts]))
       \<and> (length mx < length ts \<or> length mn < length ts
          \<or> length pr < length ts \<or> length wc < length ts
          \<longrightarrow> reshape_daily data = Inl IndexError)"
proof -
  note cols = daily_column_arr [OF assms(1) assms(3)] daily_column_arr [OF assms(1) assms(4)]
    daily_column_arr [OF assms(1) assms(5)] daily_column_arr [OF assms(1) assms(6)]
  have entry: "daily_entry data (JArr ts) i =
      (if i < length ts then
         (if i < length mx then
           (if i < length mn then
             (if i < length pr then
               (if i < length wc then Inr (daily_dict ts mx mn pr wc i) else Inl IndexError)
              else Inl IndexError)
            else Inl IndexError)
          else Inl IndexError)
       else Inl IndexError)" for i
    by (simp add: daily_entry_def cols daily_dict_def)
  have start: "reshape_daily data = daily_loop data (JArr ts) [0..<length ts] []"
    by (simp add: reshape_daily_def assms(1,2))
  have ok: "reshape_daily data = Inr (map (daily_dict ts mx mn pr wc) [0..<length ts])"
    if "length ts \<le> length mx" "length ts \<le> length mn"
      "length ts \<le> length pr" "length ts \<le> length wc"
  proof -
    have "\<forall>i\<in>set [0..<length ts].
            daily_entry data (JArr ts) i = Inr (daily_dict ts mx mn pr wc i)"
      using that by (simp add: entry)
    from daily_loop_ok [OF this, of "[]"] show ?thesis by (simp add: start)
  qed
  have bad: "reshape_daily data = Inl IndexError"
    if short: "length mx < length ts \<or> length mn < length ts
               \<or> length pr < length ts \<or> length wc < length ts"
  proof -
    define m where "m = min (length mx) (min (length mn) (min (length pr) (length wc)))"
    have m: "m < length ts" using short by (auto simp: m_def)
    have pre: "\<forall>j\<in>set [0..<m]. daily_entry data (JArr ts) j = Inr (daily_dict ts mx mn pr wc j)"
      using m by (auto simp: entry m_def)
    have at: "daily_entry data (JArr ts) m = Inl IndexError"
      by (auto simp: entry m_def min_def)
    have split: "[0..<length ts] = [0..<m] @ m # [Suc m..<length ts]"
      using m by (metis le0 upt_add_eq_append upt_conv_Cons le_add_diff_inverse less_imp_le_nat)
    show ?thesis
      unfolding start split by (rule daily_loop_fail [OF pre at])
  qed
  show ?thesis using ok bad by blast
qed

theorem C3_reshape_daily_witness:
  "reshape_daily
     (forecast_data [JStr ''2025-01-01'', JStr ''2025-01-02'', JStr ''2025-01-03'']
        [JNum 5, JNum 6, JNum 7] [JNum 1, JNum 2, JNum 3] [JNum 0, JNum 0.4, JNum 12]
        [JNum 3, JNum 61, JNum 95])
   = Inr [JObj [(''date'', JStr ''2025-01-01''), (''t_max'', JNum 5), (''t_min'', JNum 1),
                (''precipitation_sum'', JNum 0), (''weathercode'', JNum 3)],
          JObj [(''date'', JStr ''2025-01-02''), (''t_max'', JNum 6), (''t_min'', JNum 2),
                (''precipitation_sum'', JNum 0.4), (''weathercode'', JNum 61)],
          JObj [(''date'', JStr ''2025-01-03''), (''t_max'', JNum 7), (''t_min'', JNum 3),
                (''precipitation_sum'', JNum 12), (''weathercode'', JNum 95)]]
   \<and> reshape_daily
     (forecast_data [JStr ''2025-01-01'', JStr ''2025-01-02'', JStr ''2025-01-03'']
        [JNum 5, JNum 6, JNum 7] [JNum 1, JNum 2] [JNum 0, JNum 0.4, JNum 12]
        [JNum 3, JNum 61, JNum 95])
   = Inl IndexError"
proof -
  let ?ts = "[JStr ''2025-01-01'', JStr ''2025-01-02'', JStr ''2025-01-03'']"
  let ?mx = "[JNum 5, JNum 6, JNum 7]" and ?mn = "[JNum 1, JNum 2, JNum 3]"
  let ?pr = "[JNum 0, JNum 0.4, JNum 12]" and ?wc = "[JNum 3, JNum 61, JNum 95]"
  let ?mn' = "[JNum 1, JNum 2]"
  let ?d = "\<lambda>mn. JObj [(''time'', JArr ?ts), (''temperature_2m_max'', JArr ?mx),
                        (''temperature_2m_min'', JArr mn), (''precipitation_sum'', JArr ?pr),
                        (''weathercode'', JArr ?wc)]"
  from C3_reshape_daily [of "forecast_data ?ts ?mx ?mn ?pr ?wc" "?d ?mn" ?ts ?mx ?mn ?pr ?wc]
  have a: "reshape_daily (forecast_data ?ts ?mx ?mn ?pr ?wc)
           = Inr (map (daily_dict ?ts ?mx ?mn ?pr ?wc) [0..<length ?ts])"
    by (simp add: forecast_data_def)
  from C3_reshape_daily [of "forecast_data ?ts ?mx ?mn' ?pr ?wc" "?d ?mn'" ?ts ?mx ?mn' ?pr ?wc]
  have b: "reshape_daily (forecast_data ?ts ?mx ?mn' ?pr ?wc) = Inl IndexError"
    by (simp add: forecast_data_def)
  show ?thesis
    unfolding a b by (simp add: daily_dict_def upt_rec)
qed

text \<open>
  Claim C3 as stated fails where the arrays differ in length and the array of dates is the
  shortest: with one date and two elements in each other array the reshaping does not
  fail, it returns the one entry of index 0 and drops the rest.
\<close>

theorem C3_reshape_daily_counterexample:
  "reshape_daily
     (forecast_data [JStr ''2025-01-01''] [JNum 5, JNum 6] [JNum 1, JNum 2]
        [JNum 0, JNum 0.4] [JNum 3, JNum 61])
   = Inr [JObj [(''date'', JStr ''2025-01-01''), (''t_max'', JNum 5), (''t_min'', JNum 1),
                (''precipitation_sum'', JNum 0), (''weathercode'', JNum 3)]]"
  by (simp add: forecast_data_def reshape_daily_def daily_entry_def daily_column_def)

subsection \<open>The tool\<close>

lemma forecast_result_query:
  "forecast_result p loc lat lon data daily = Inr res \<Longrightarrow> item_str res ''query'' = Inr (JStr p)"
  by (auto simp: forecast_result_def bind_Inr_iff)

lemmas tool_eval =
  get_weather_forecast_def valid_arguments_def forecast_body_def geocode_def fetch_def
  forecast_request_def temp_unit_def reshape_daily_def forecast_result_def always_def

text \<open>
  Claim C1, as amended. For every call to \<open>get_weather_forecast\<close> that succeeds, the
  \<open>query\<close> field of the result is the normalized place text, the value of
  \<open>_clean_place(place)\<close> that the body assigns to \<open>place\<close> before anything else.
\<close>

theorem C1_query_is_cleaned_place:
  "get_weather_forecast net place days u lang sent = (Inr res, sent')
   \<Longrightarrow> query_of (get_weather_forecast net place days u lang sent)
       = Inr (JStr (clean_place (Some place)))"
  by (auto simp: query_of_def get_weather_forecast_def forecast_body_def Let_def bind_Inr_iff
        split: if_splits prod.splits sum.splits dest: forecast_result_query)

lemma call_with_leading_space:
  "get_weather_forecast (always (Returns (forecast_data [] [] [] [] []))) '' 1,2'' 3 C ''en'' []
   = (Inr (JObj [(''query'', JStr ''1,2''),
                 (''location'',
                  JObj [(''name'', JStr ''1,2''), (''country'', JNull), (''admin1'', JNull),
                        (''latitude'', JNum 1), (''longitude'', JNum 2),
                        (''timezone'', JStr ''Europe/Copenhagen'')]),
                 (''units'', JObj []), (''daily'', JArr [])]),
      [forecast_request (JNum 1) (JNum 2) C 3])"
  by (simp add: tool_eval forecast_data_def clean_place_eval parse_latlon_eval)

theorem C1_query_is_cleaned_place_witness:
  "query_of (get_weather_forecast (always (Returns (forecast_data [] [] [] [] [])))
      '' 1,2'' 3 C ''en'' [])
   = Inr (JStr ''1,2'')"
proof -
  have c: "clean_place (Some '' 1,2'') = ''1,2''"
    by (simp add: clean_place_eval)
  from C1_query_is_cleaned_place [OF call_with_leading_space]
  show ?thesis unfolding c .
qed

text \<open>
  Claim C1 as stated fails for a place text that the normalizer changes: the call with
  \<open>" 1,2"\<close> succeeds and its \<open>query\<close> is \<open>"1,2"\<close>, not the text the caller supplied.
\<close>

theorem C1_query_is_original_counterexample:
  "query_of (get_weather_forecast (always (Returns (forecast_data [] [] [] [] [])))
      '' 1,2'' 3 C ''en'' [])
   = Inr (JStr ''1,2'')
   \<and> query_of (get_weather_forecast (always (Returns (forecast_data [] [] [] [] [])))
      '' 1,2'' 3 C ''en'' [])
   \<noteq> Inr (JStr '' 1,2'')"
  by (simp add: query_of_def call_with_leading_space)

text \<open>
  Claim C9. Every call with \<open>days\<close> outside 1..16 or with a language text whose length is
  outside 2..5 is rejected with a validation error, and the list of requests is returned
  unchanged: no network call is made and no other work is done.
\<close>

theorem C9_validation_before_network:
  "\<not> (1 \<le> days \<and> days \<le> 16) \<or> \<not> (2 \<le> length lang \<and> length lang \<le> 5)
   \<Longrightarrow> get_weather_forecast net place days u lang sent = (Inl ValidationError, sent)"
  by (auto simp: get_weather_forecast_def valid_arguments_def)

theorem C9_validation_before_network_witness:
  "get_weather_forecast (always (Returns (forecast_data [] [] [] [] []))) ''1,2'' 0 C ''en'' []
     = (Inl ValidationError, [])
   \<and> get_weather_forecast (always (Returns (forecast_data [] [] [] [] []))) ''1,2'' 17 C ''en'' []
     = (Inl ValidationError, [])
   \<and> get_weather_forecast (always (Returns (forecast_data [] [] [] [] []))) ''1,2'' 3 C ''e'' []
     = (Inl ValidationError, [])"
  using C9_validation_before_network [of 0 "''en''"]
    C9_validation_before_network [of 17 "''en''"]
    C9_validation_before_network [of 3 "''e''"]
  by simp

end
